theory Spec2Isabelle
  imports Main "HOL-Library.Word" "HOL-Library.Signed_Division" "HOL-Library.Log_Nat"
begin

section \<open>Machine integers, durations and the standard-library functions the adapter calls\<close>

text \<open>
  Go's \<open>int\<close> is taken at its 64-bit width (amd64, arm64); \<open>time.Duration\<close> is an
  \<open>int64\<close> count of nanoseconds. Both are 64-bit words read in two's complement, so
  that \<open>*\<close> and \<open>+\<close> wrap as the machine does.
\<close>

type_synonym go_int = "64 word"
type_synonym Duration = "64 word"

definition Second :: Duration where
  "Second = 1000000000"

text \<open>
  \<open>Duration.Seconds\<close> of package \<open>time\<close> returns a \<open>float64\<close>:
  \<^verbatim>\<open>
  func (d Duration) Seconds() float64 {
      sec := d / Second
      nsec := d % Second
      return float64(sec) + float64(nsec)/1e9
  }
  \<close>
  A finite \<open>float64\<close> is a rational number, and each floating-point operation is the
  exact operation followed by rounding to the nearest binary64 value, ties to even.
  \<open>round64\<close> is that rounding for the normal range (53-bit significand); every value
  \<open>Seconds\<close> rounds is \<open>0\<close> or lies, in absolute value, between \<open>10^-9\<close> and \<open>2^34\<close>, well
  inside that range.
  The conversions \<open>float64(sec)\<close>, \<open>float64(nsec)\<close> and the constant \<open>1e9\<close> are exact,
  since all three are integers below \<open>2^53\<close>.
\<close>

definition pow2 :: "int \<Rightarrow> rat" where
  "pow2 e = (if 0 \<le> e then 2 ^ nat e else 1 / 2 ^ nat (- e))"

definition ilog2 :: "rat \<Rightarrow> int" where
  \<comment> \<open>the binary exponent of a positive rational: \<open>pow2 (ilog2 q) \<le> q < pow2 (ilog2 q + 1)\<close>\<close>
  "ilog2 q = (let (a, b) = quotient_of q; k = bitlen a - bitlen b
              in if pow2 k \<le> q then k else k - 1)"

definition round_half_even :: "rat \<Rightarrow> int" where
  "round_half_even q = (let f = \<lfloor>q\<rfloor>; d = q - of_int f
     in if d < 1 / 2 then f else if 1 / 2 < d then f + 1 else if even f then f else f + 1)"

definition round64 :: "rat \<Rightarrow> rat" where
  "round64 q = (if q = 0 then 0
     else let u = pow2 (ilog2 \<bar>q\<bar> - 52)
          in (if q < 0 then - 1 else 1) * of_int (round_half_even (\<bar>q\<bar> / u)) * u)"

definition Seconds :: "Duration \<Rightarrow> rat" where
  "Seconds d = (let sec = sint d sdiv sint Second; nsec = sint d smod sint Second
     in round64 (of_int sec + round64 (of_int nsec / 1000000000)))"

text \<open>
  The conversion \<open>int(f)\<close> of a \<open>float64\<close> discards the fraction (truncation towards
  zero). What \<open>Seconds\<close> returns is below \<open>2^34\<close> in absolute value and so always fits.
\<close>

definition float_to_int :: "rat \<Rightarrow> go_int" where
  "float_to_int f = word_of_int (if 0 \<le> f then \<lfloor>f\<rfloor> else \<lceil>f\<rceil>)"

text \<open>\<open>strconv.Itoa\<close>: the decimal rendering of an \<open>int\<close>, with a leading \<open>-\<close> when negative.\<close>

definition digit_char :: "nat \<Rightarrow> char" where
  "digit_char n = ''0123456789'' ! n"

fun decimal :: "nat \<Rightarrow> string" where
  "decimal n = (if n < 10 then [digit_char n] else decimal (n div 10) @ [digit_char (n mod 10)])"

declare decimal.simps [simp del]

definition Itoa :: "go_int \<Rightarrow> string" where
  "Itoa i = (if sint i < 0 then CHR ''-'' # decimal (nat (- sint i)) else decimal (nat (sint i)))"

text \<open>
  Errors are values. \<open>strconv.Atoi\<close> fails with a \<open>*NumError\<close> that carries the function
  name, the offending text and \<open>ErrSyntax\<close> or \<open>ErrRange\<close>; the errors of the provider
  client (transport, API status, cancellation, malformed page links) are opaque to the
  adapter and are carried as their message.
\<close>

datatype num_err = ErrSyntax | ErrRange

datatype error = NumError string string num_err | ClientError string

definition syntaxError :: "string \<Rightarrow> string \<Rightarrow> error" where
  "syntaxError fn str = NumError fn str ErrSyntax"

definition rangeError :: "string \<Rightarrow> string \<Rightarrow> error" where
  "rangeError fn str = NumError fn str ErrRange"

definition digit_val :: "char \<Rightarrow> nat option" where
  "digit_val ch = (let v = (of_char ch :: nat) in if 48 \<le> v \<and> v \<le> 57 then Some (v - 48) else None)"

text \<open>
  The digit loop of \<open>strconv.ParseUint\<close> for base 10 and 64 bits: it reads the bytes
  in order, fails with \<open>ErrSyntax\<close> at a byte that is not a digit, and with \<open>ErrRange\<close> as
  soon as the value no longer fits a \<open>uint64\<close>, without reading further.
\<close>

fun parse_uint :: "string \<Rightarrow> nat \<Rightarrow> num_err + nat" where
  "parse_uint [] n = Inr n"
| "parse_uint (ch # s) n =
     (case digit_val ch of
        None \<Rightarrow> Inl ErrSyntax
      | Some v \<Rightarrow>
          if 2 ^ 64 div 10 + 1 \<le> n then Inl ErrRange
          else if 2 ^ 64 - 1 < n * 10 + v then Inl ErrRange
          else parse_uint s (n * 10 + v))"

text \<open>
  \<open>strconv.Atoi\<close> accepts an optional sign followed by one or more decimal digits whose
  value fits an \<open>int\<close>. Its fast path (fewer than 19 bytes, where nothing can overflow)
  and its slow path through \<open>ParseInt(s, 10, 0)\<close> and \<open>ParseUint\<close> agree on every input,
  so one definition covers both. The value returned beside an error is not read by the
  adapter and is left out.
\<close>

definition Atoi :: "string \<Rightarrow> error + go_int" where
  "Atoi s0 =
     (case s0 of
        [] \<Rightarrow> Inl (syntaxError ''Atoi'' s0)
      | c # cs \<Rightarrow>
          (let neg = (c = CHR ''-'');
               s = (if c = CHR ''-'' \<or> c = CHR ''+'' then cs else s0)
           in if s = [] then Inl (syntaxError ''Atoi'' s0)
              else (case parse_uint s 0 of
                      Inl ErrSyntax \<Rightarrow> Inl (syntaxError ''Atoi'' s0)
                    | Inl ErrRange \<Rightarrow> Inl (rangeError ''Atoi'' s0)
                    | Inr n \<Rightarrow>
                        if neg then (if n \<le> 2 ^ 63 then Inr (word_of_int (- int n))
                                     else Inl (rangeError ''Atoi'' s0))
                        else (if n < 2 ^ 63 then Inr (word_of_int (int n))
                              else Inl (rangeError ''Atoi'' s0)))))"

section \<open>The data model\<close>

text \<open>\<open>libdns.RR\<close>, the generic resource record.\<close>

record RR =
  Name :: string
  TTL :: Duration
  Type :: string
  Data :: string

text \<open>\<open>DNS\<close> (model.go): a generic record together with the provider's identifier.\<close>

record DNS =
  Record :: RR
  ID :: string

text \<open>
  \<open>libdns.Record\<close> is an interface with the single method \<open>RR()\<close>. A value of it is a
  value of some dynamic type: \<open>libdns.RR\<close> itself (whose \<open>RR()\<close> returns the receiver),
  the adapter's \<open>DNS\<close>, or any other implementer, kept as the name of its type and what
  its \<open>RR()\<close> returns.
\<close>

datatype Record = RRValue RR | DNSValue DNS | OtherValue string RR

fun RR_of :: "Record \<Rightarrow> RR" where
  "RR_of (RRValue r) = r"
| "RR_of (DNSValue d) = Record d"
| "RR_of (OtherValue ty r) = r"

text \<open>
  \<open>godo.DomainRecord\<close> and \<open>godo.DomainRecordEditRequest\<close>, the provider's wire
  records, with the fields the adapter reads and writes.
\<close>

record DomainRecord =
  ID :: go_int
  Type :: string
  Name :: string
  Data :: string
  TTL :: go_int

record DomainRecordEditRequest =
  Type :: string
  Name :: string
  Data :: string
  TTL :: go_int

section \<open>The record translator (model.go)\<close>

definition fromRecord :: "Record \<Rightarrow> string \<Rightarrow> DNS" where
  "fromRecord record id' =
     (let rr = RR_of record in \<lparr>DNS.Record = rr, DNS.ID = id'\<rparr>)"

definition recordToGoDo :: "Record \<Rightarrow> DomainRecordEditRequest" where
  "recordToGoDo record =
     (let rr = RR_of record
      in \<lparr>DomainRecordEditRequest.Type = RR.Type rr,
          DomainRecordEditRequest.Name = RR.Name rr,
          DomainRecordEditRequest.Data = RR.Data rr,
          DomainRecordEditRequest.TTL = float_to_int (Seconds (RR.TTL rr))\<rparr>)"

definition godoToRecord :: "DomainRecord \<Rightarrow> DNS" where
  "godoToRecord entry =
     (let rr = \<lparr>RR.Name = DomainRecord.Name entry,
                RR.TTL = DomainRecord.TTL entry * Second,
                RR.Type = DomainRecord.Type entry,
                RR.Data = DomainRecord.Data entry\<rparr>
      in \<lparr>DNS.Record = rr, DNS.ID = Itoa (DomainRecord.ID entry)\<rparr>)"

subsection \<open>The legacy translator (type \<open>dns\<close>)\<close>

datatype dns = dns (Record_legacy: RR) (ID_legacy: string)

definition fromRecord_legacy :: "Record \<Rightarrow> string \<Rightarrow> dns" where
  "fromRecord_legacy record id' = (let rr = RR_of record in dns rr id')"

definition recordToGoDo_legacy :: "Record \<Rightarrow> DomainRecordEditRequest" where
  "recordToGoDo_legacy record =
     (let rr = RR_of record
      in \<lparr>DomainRecordEditRequest.Type = RR.Type rr,
          DomainRecordEditRequest.Name = RR.Name rr,
          DomainRecordEditRequest.Data = RR.Data rr,
          DomainRecordEditRequest.TTL = float_to_int (Seconds (RR.TTL rr))\<rparr>)"

definition godoToRecord_legacy :: "DomainRecord \<Rightarrow> dns" where
  "godoToRecord_legacy entry =
     (let rr = \<lparr>RR.Name = DomainRecord.Name entry,
                RR.TTL = DomainRecord.TTL entry * Second,
                RR.Type = DomainRecord.Type entry,
                RR.Data = DomainRecord.Data entry\<rparr>
      in dns rr (Itoa (DomainRecord.ID entry)))"

section \<open>The provider client as the adapter sees it\<close>

text \<open>
  \<open>godo.ListOptions\<close>; the adapter sets \<open>Page\<close> only, and a zero \<open>Page\<close> is left out
  of the request, which the provider reads as the first page.
\<close>

record ListOptions =
  Page :: go_int
  PerPage :: go_int

text \<open>
  Of a page's \<open>*godo.Links\<close> the adapter reads two things: \<open>IsLastPage()\<close> and
  \<open>CurrentPage()\<close>, the latter failing when the page links do not parse. \<open>Links\<close>
  holds what the two methods return; a \<open>Response\<close> whose \<open>Links\<close> is \<open>nil\<close> has \<open>None\<close>.
\<close>

record Links =
  IsLastPage :: bool
  CurrentPage :: "error + go_int"

record Response =
  Links :: "Links option"

text \<open>Every request that reaches the provider is recorded, in order.\<close>

datatype call =
    RecordsCall string ListOptions
  | CreateRecordCall string DomainRecordEditRequest
  | DeleteRecordCall string go_int
  | EditRecordCall string go_int DomainRecordEditRequest

text \<open>
  The four methods of \<open>p.client.Domains\<close> the adapter calls. The provider is outside
  the program: each answer may depend on every request made so far (the first argument)
  and on the request itself. A method either fails with an error or returns its values;
  with a \<open>nil\<close> error godo returns a non-\<open>nil\<close> response and record.
\<close>

record DomainsService =
  Records :: "call list \<Rightarrow> string \<Rightarrow> ListOptions \<Rightarrow> error + (DomainRecord list \<times> Response)"
  CreateRecord :: "call list \<Rightarrow> string \<Rightarrow> DomainRecordEditRequest \<Rightarrow> error + DomainRecord"
  DeleteRecord :: "call list \<Rightarrow> string \<Rightarrow> go_int \<Rightarrow> error option"
  EditRecord :: "call list \<Rightarrow> string \<Rightarrow> go_int \<Rightarrow> DomainRecordEditRequest \<Rightarrow> error + DomainRecord"

section \<open>The client operations (client.go)\<close>

text \<open>
  Each operation takes the requests made so far and returns its two Go results together
  with the requests made once it is done. The mutex and the lazy construction of the
  client handle in \<open>getClient\<close> change neither.

  The listing loop runs until the provider reports a last page or an error, which a
  provider may never do: the loop is a partial function, \<open>None\<close> when it does not return.
\<close>

partial_function (option) getDNSEntries_loop ::
  "DomainsService \<Rightarrow> string \<Rightarrow> ListOptions \<Rightarrow> Record list \<Rightarrow> call list
     \<Rightarrow> ((Record list \<times> error option) \<times> call list) option" where
  "getDNSEntries_loop d zone opt records tr =
     (case Records d tr zone opt of
        Inl err \<Rightarrow> Some ((records, Some err), tr @ [RecordsCall zone opt])
      | Inr (domains, resp) \<Rightarrow>
          (let records' = records @ map (\<lambda>entry. DNSValue (godoToRecord entry)) domains;
               tr' = tr @ [RecordsCall zone opt]
           in (case Links resp of
                 None \<Rightarrow> Some ((records', None), tr')
               | Some links \<Rightarrow>
                   if IsLastPage links then Some ((records', None), tr')
                   else (case CurrentPage links of
                           Inl err \<Rightarrow> Some ((records', Some err), tr')
                         | Inr page \<Rightarrow>
                             getDNSEntries_loop d zone (opt\<lparr>Page := page + 1\<rparr>) records' tr'))))"

definition getDNSEntries ::
  "DomainsService \<Rightarrow> string \<Rightarrow> call list \<Rightarrow> ((Record list \<times> error option) \<times> call list) option" where
  "getDNSEntries d zone tr = getDNSEntries_loop d zone \<lparr>Page = 0, PerPage = 0\<rparr> [] tr"

definition addDNSEntry ::
  "DomainsService \<Rightarrow> string \<Rightarrow> Record \<Rightarrow> call list \<Rightarrow> (Record \<times> error option) \<times> call list" where
  "addDNSEntry d zone record tr =
     (let rr = RR_of record;
          entry = \<lparr>DomainRecordEditRequest.Type = RR.Type rr,
                   DomainRecordEditRequest.Name = RR.Name rr,
                   DomainRecordEditRequest.Data = RR.Data rr,
                   DomainRecordEditRequest.TTL = float_to_int (Seconds (RR.TTL rr))\<rparr>
      in (case CreateRecord d tr zone entry of
            Inl err \<Rightarrow> ((record, Some err), tr @ [CreateRecordCall zone entry])
          | Inr rec \<Rightarrow>
              ((DNSValue (fromRecord record (Itoa (DomainRecord.ID rec))), None),
               tr @ [CreateRecordCall zone entry])))"

text \<open>
  The identifier both \<open>removeDNSEntry\<close> and \<open>updateDNSEntry\<close> start from: the \<open>ID\<close> of a
  record whose dynamic type is \<open>DNS\<close>, the empty string for any other record.
\<close>

definition idRaw :: "Record \<Rightarrow> string" where
  "idRaw record = (case record of DNSValue dnsRecord \<Rightarrow> DNS.ID dnsRecord | _ \<Rightarrow> [])"

definition removeDNSEntry ::
  "DomainsService \<Rightarrow> string \<Rightarrow> Record \<Rightarrow> call list \<Rightarrow> (Record \<times> error option) \<times> call list" where
  "removeDNSEntry d zone record tr =
     (case Atoi (idRaw record) of
        Inl err \<Rightarrow> ((record, Some err), tr)
      | Inr id' \<Rightarrow>
          (case DeleteRecord d tr zone id' of
             Some err \<Rightarrow> ((record, Some err), tr @ [DeleteRecordCall zone id'])
           | None \<Rightarrow> ((record, None), tr @ [DeleteRecordCall zone id'])))"

definition updateDNSEntry ::
  "DomainsService \<Rightarrow> string \<Rightarrow> Record \<Rightarrow> call list \<Rightarrow> (Record \<times> error option) \<times> call list" where
  "updateDNSEntry d zone record tr =
     (case Atoi (idRaw record) of
        Inl err \<Rightarrow> ((record, Some err), tr)
      | Inr id' \<Rightarrow>
          (let rr = RR_of record;
               entry = \<lparr>DomainRecordEditRequest.Type = RR.Type rr,
                        DomainRecordEditRequest.Name = RR.Name rr,
                        DomainRecordEditRequest.Data = RR.Data rr,
                        DomainRecordEditRequest.TTL = float_to_int (Seconds (RR.TTL rr))\<rparr>
           in (case EditRecord d tr zone id' entry of
                 Inl err \<Rightarrow> ((record, Some err), tr @ [EditRecordCall zone id' entry])
               | Inr rec \<Rightarrow> ((record, None), tr @ [EditRecordCall zone id' entry]))))"

section \<open>The facade (provider.go)\<close>

text \<open>
  Modelled from the spec: \<open>unFQDN\<close> of provider.go, which is not among the sources.
  Spec: "strips exactly one trailing \<open>.\<close> if present; otherwise returns input unchanged.
  Pure, total function, no error case."
\<close>

definition unFQDN :: "string \<Rightarrow> string" where
  "unFQDN fqdn = (if fqdn \<noteq> [] \<and> last fqdn = CHR ''.'' then butlast fqdn else fqdn)"

text \<open>
  Modelled from the spec: \<open>GetRecords\<close> of provider.go, which is not among the sources.
  Spec: "normalizes zone (strip trailing dot), delegates to [the lister], returns
  translated results or propagates the first listing error"; on an error "partial
  accumulated results are discarded from the caller's perspective (error return takes
  precedence)".
\<close>

definition GetRecords ::
  "DomainsService \<Rightarrow> string \<Rightarrow> call list \<Rightarrow> ((Record list \<times> error option) \<times> call list) option" where
  "GetRecords d zone tr =
     (case getDNSEntries d (unFQDN zone) tr of
        None \<Rightarrow> None
      | Some ((records, err), tr') \<Rightarrow>
          (case err of
             Some e \<Rightarrow> Some (([], Some e), tr')
           | None \<Rightarrow> Some ((records, None), tr')))"

text \<open>
  Modelled from the spec: \<open>SetRecords\<close> of provider.go, which is not among the sources.
  Spec: "For each input record: if it carries a non-empty identifier, invoke \<open>update\<close>;
  otherwise invoke \<open>create\<close>", on the normalized zone, with the batch semantics of
  \<open>append\<close>: "processing stops at the first per-record error, and results already
  produced are returned alongside the error".
\<close>

fun SetRecords_loop ::
  "DomainsService \<Rightarrow> string \<Rightarrow> Record list \<Rightarrow> Record list \<Rightarrow> call list
     \<Rightarrow> (Record list \<times> error option) \<times> call list" where
  "SetRecords_loop d zone [] setRecords tr = ((setRecords, None), tr)"
| "SetRecords_loop d zone (record # rest) setRecords tr =
     (case (if idRaw record \<noteq> [] then updateDNSEntry d zone record tr
            else addDNSEntry d zone record tr) of
        ((setRecord, Some err), tr') \<Rightarrow> ((setRecords, Some err), tr')
      | ((setRecord, None), tr') \<Rightarrow> SetRecords_loop d zone rest (setRecords @ [setRecord]) tr')"

definition SetRecords ::
  "DomainsService \<Rightarrow> string \<Rightarrow> Record list \<Rightarrow> call list \<Rightarrow> (Record list \<times> error option) \<times> call list" where
  "SetRecords d zone records tr = SetRecords_loop d (unFQDN zone) records [] tr"

section \<open>Describing a listing walk\<close>

text \<open>
  What the provider does during a walk is stated from the outside, as a script: the
  pages it served that were not the last, each with the page number its links reported.
  \<open>walked d tr zone opt script\<close> holds when the provider, asked for \<open>opt\<close> after the
  requests \<open>tr\<close>, serves the pages of the script one after the other, every one with page
  links present, not marked last, and the reported page number, each request being for
  the page after the one just reported. \<open>walk_calls\<close> are the requests made on the way and
  \<open>walk_options\<close> the options of the request that comes next.
\<close>

fun walked ::
  "DomainsService \<Rightarrow> call list \<Rightarrow> string \<Rightarrow> ListOptions \<Rightarrow> (DomainRecord list \<times> go_int) list \<Rightarrow> bool" where
  "walked d tr zone opt [] = True"
| "walked d tr zone opt ((domains, page) # rest) =
     (Records d tr zone opt
        = Inr (domains, \<lparr>Links = Some \<lparr>IsLastPage = False, CurrentPage = Inr page\<rparr>\<rparr>)
      \<and> walked d (tr @ [RecordsCall zone opt]) zone (opt\<lparr>Page := page + 1\<rparr>) rest)"

fun walk_calls :: "string \<Rightarrow> ListOptions \<Rightarrow> (DomainRecord list \<times> go_int) list \<Rightarrow> call list" where
  "walk_calls zone opt [] = []"
| "walk_calls zone opt ((domains, page) # rest) =
     RecordsCall zone opt # walk_calls zone (opt\<lparr>Page := page + 1\<rparr>) rest"

fun walk_options :: "ListOptions \<Rightarrow> (DomainRecord list \<times> go_int) list \<Rightarrow> ListOptions" where
  "walk_options opt [] = opt"
| "walk_options opt ((domains, page) # rest) = walk_options (opt\<lparr>Page := page + 1\<rparr>) rest"

text \<open>Pages numbered from \<open>k\<close> on, as a provider that reports page \<open>k\<close> for its \<open>k\<close>-th page does.\<close>

fun numbered :: "nat \<Rightarrow> DomainRecord list list \<Rightarrow> (DomainRecord list \<times> go_int) list" where
  "numbered k [] = []"
| "numbered k (domains # pages) = (domains, of_nat k) # numbered (Suc k) pages"

text \<open>The translation \<open>getDNSEntries\<close> applies to every entry of a page.\<close>

definition translated :: "DomainRecord list \<Rightarrow> Record list" where
  "translated domains = map (\<lambda>entry. DNSValue (godoToRecord entry)) domains"

section \<open>Test doubles\<close>

text \<open>
  \<open>mockDomainsService\<close> of provider_test.go: it fails every call when \<open>err\<close> is set,
  lists its records on the first page and nothing on later ones, assigns the identifier
  12345 to every created record and echoes an edit. Its responses carry an empty
  \<open>godo.Links\<close>, for which \<open>IsLastPage()\<close> is true and \<open>CurrentPage()\<close> is 1.
\<close>

definition mockDomainsService :: "DomainRecord list \<Rightarrow> error option \<Rightarrow> DomainsService" where
  "mockDomainsService records err =
     \<lparr>Records = (\<lambda>tr domain opts.
        (case err of
           Some e \<Rightarrow> Inl e
         | None \<Rightarrow>
             if 1 < sint (Page opts)
             then Inr ([], \<lparr>Links = Some \<lparr>IsLastPage = True, CurrentPage = Inr 1\<rparr>\<rparr>)
             else Inr (records, \<lparr>Links = Some \<lparr>IsLastPage = True, CurrentPage = Inr 1\<rparr>\<rparr>))),
      CreateRecord = (\<lambda>tr domain createRequest.
        (case err of
           Some e \<Rightarrow> Inl e
         | None \<Rightarrow> Inr \<lparr>DomainRecord.ID = 12345,
                         DomainRecord.Type = DomainRecordEditRequest.Type createRequest,
                         DomainRecord.Name = DomainRecordEditRequest.Name createRequest,
                         DomainRecord.Data = DomainRecordEditRequest.Data createRequest,
                         DomainRecord.TTL = DomainRecordEditRequest.TTL createRequest\<rparr>)),
      DeleteRecord = (\<lambda>tr domain id'. err),
      EditRecord = (\<lambda>tr domain id' editRequest.
        (case err of
           Some e \<Rightarrow> Inl e
         | None \<Rightarrow> Inr \<lparr>DomainRecord.ID = id',
                         DomainRecord.Type = DomainRecordEditRequest.Type editRequest,
                         DomainRecord.Name = DomainRecordEditRequest.Name editRequest,
                         DomainRecord.Data = DomainRecordEditRequest.Data editRequest,
                         DomainRecord.TTL = DomainRecordEditRequest.TTL editRequest\<rparr>))\<rparr>"

text \<open>
  A provider whose listing answers by the requested page number alone (an unset page is
  the first), and whose other methods are those of the mock.
\<close>

definition pagedService ::
  "(go_int \<Rightarrow> error + (DomainRecord list \<times> Response)) \<Rightarrow> DomainsService" where
  "pagedService answer =
     (mockDomainsService [] None)
       \<lparr>Records := (\<lambda>tr domain opts. answer (if Page opts = 0 then 1 else Page opts))\<rparr>"

text \<open>The two wire records of the listing tests, and the record of the mutation tests.\<close>

definition mockRecordA :: DomainRecord where
  "mockRecordA =
     \<lparr>DomainRecord.ID = 1, DomainRecord.Type = ''A'', DomainRecord.Name = ''test'',
      DomainRecord.Data = ''192.168.1.1'', DomainRecord.TTL = 3600\<rparr>"

definition mockRecordCNAME :: DomainRecord where
  "mockRecordCNAME =
     \<lparr>DomainRecord.ID = 2, DomainRecord.Type = ''CNAME'', DomainRecord.Name = ''www'',
      DomainRecord.Data = ''example.com'', DomainRecord.TTL = 1800\<rparr>"

text \<open>
  Three listings of those two records over two pages: a complete one, one whose second
  request fails, and one whose second page carries page links that do not parse.
\<close>

definition twoPages :: "go_int \<Rightarrow> error + (DomainRecord list \<times> Response)" where
  "twoPages page =
     (if page = 1
      then Inr ([mockRecordA], \<lparr>Links = Some \<lparr>IsLastPage = False, CurrentPage = Inr 1\<rparr>\<rparr>)
      else Inr ([mockRecordCNAME], \<lparr>Links = Some \<lparr>IsLastPage = True, CurrentPage = Inr 2\<rparr>\<rparr>))"

definition failingSecondPage :: "go_int \<Rightarrow> error + (DomainRecord list \<times> Response)" where
  "failingSecondPage page =
     (if page = 1
      then Inr ([mockRecordA], \<lparr>Links = Some \<lparr>IsLastPage = False, CurrentPage = Inr 1\<rparr>\<rparr>)
      else Inl (ClientError ''API error''))"

definition malformedSecondPage :: "go_int \<Rightarrow> error + (DomainRecord list \<times> Response)" where
  "malformedSecondPage page =
     (if page = 1
      then Inr ([mockRecordA], \<lparr>Links = Some \<lparr>IsLastPage = False, CurrentPage = Inr 1\<rparr>\<rparr>)
      else Inr ([mockRecordCNAME],
                \<lparr>Links = Some \<lparr>IsLastPage = False,
                                CurrentPage = Inl (ClientError ''invalid page link'')\<rparr>\<rparr>))"

definition testRR :: RR where
  "testRR = \<lparr>RR.Name = ''test'', RR.TTL = 3600 * Second, RR.Type = ''A'', RR.Data = ''192.168.1.1''\<rparr>"

definition testDNS :: DNS where
  "testDNS = \<lparr>DNS.Record = testRR, DNS.ID = ''1''\<rparr>"

section \<open>What a call made for a record must look like\<close>

text \<open>
  \<open>routed zone c record\<close>: \<open>c\<close> is the request the set operation owes \<open>record\<close>, an edit
  keyed by the parsed identifier when the record carries one, a create otherwise.
\<close>

definition routed :: "string \<Rightarrow> call \<Rightarrow> Record \<Rightarrow> bool" where
  "routed zone c record =
     (if idRaw record \<noteq> []
      then (case Atoi (idRaw record) of
              Inr n \<Rightarrow> c = EditRecordCall zone n (recordToGoDo record)
            | Inl e \<Rightarrow> False)
      else c = CreateRecordCall zone (recordToGoDo record))"

text \<open>
  \<open>owed d zone record tr\<close>: the operation the set operation owes \<open>record\<close>, run after
  the requests \<open>tr\<close>: the update when the record carries an identifier, the create
  otherwise.
\<close>

definition owed ::
  "DomainsService \<Rightarrow> string \<Rightarrow> Record \<Rightarrow> call list \<Rightarrow> (Record \<times> error option) \<times> call list" where
  "owed d zone record tr =
     (if idRaw record \<noteq> [] then updateDNSEntry d zone record tr
      else addDNSEntry d zone record tr)"

section \<open>Evaluations and traces shared by the proofs\<close>

lemma Atoi_invalid: "Atoi ''invalid'' = Inl (NumError ''Atoi'' ''invalid'' ErrSyntax)"
  by (simp add: Atoi_def digit_val_def syntaxError_def)

lemma Atoi_empty: "Atoi [] = Inl (NumError ''Atoi'' [] ErrSyntax)"
  by (simp add: Atoi_def syntaxError_def)

lemma Atoi_1: "Atoi ''1'' = Inr 1"
  by (simp add: Atoi_def digit_val_def)

lemma Itoa_12345: "Itoa 12345 = ''12345''"
  by (simp add: Itoa_def decimal.simps digit_char_def)

lemma addDNSEntry_trace:
  "snd (addDNSEntry d zone record tr) = tr @ [CreateRecordCall zone (recordToGoDo record)]"
  by (simp add: addDNSEntry_def recordToGoDo_def Let_def split: sum.split)

lemma updateDNSEntry_trace:
  "snd (updateDNSEntry d zone record tr) =
     (case Atoi (idRaw record) of
        Inl e \<Rightarrow> tr
      | Inr n \<Rightarrow> tr @ [EditRecordCall zone n (recordToGoDo record)])"
  by (simp add: updateDNSEntry_def recordToGoDo_def Let_def split: sum.split)

section \<open>Identifiers written by \<open>Itoa\<close> are read back by \<open>Atoi\<close>\<close>

text \<open>
  Every identifier the adapter itself writes, in \<open>godoToRecord\<close> and \<open>addDNSEntry\<close>, is
  the \<open>Itoa\<close> of a provider identifier, and \<open>Atoi\<close> parses it back to that identifier.
\<close>

lemma digit_val_digit_char: "n < 10 \<Longrightarrow> digit_val (digit_char n) = Some n"
proof -
  assume "n < 10"
  then consider "n = 0" | "n = 1" | "n = 2" | "n = 3" | "n = 4" | "n = 5" | "n = 6" | "n = 7"
    | "n = 8" | "n = 9"
    by atomize_elim arith
  then show ?thesis
    by cases (simp_all add: digit_val_def digit_char_def)
qed

lemma digit_char_not_sign:
  "n < 10 \<Longrightarrow> digit_char n \<noteq> CHR ''-'' \<and> digit_char n \<noteq> CHR ''+''"
proof -
  assume "n < 10"
  then consider "n = 0" | "n = 1" | "n = 2" | "n = 3" | "n = 4" | "n = 5" | "n = 6" | "n = 7"
    | "n = 8" | "n = 9"
    by atomize_elim arith
  then show ?thesis
    by cases (simp_all add: digit_char_def)
qed

lemma parse_uint_append:
  "parse_uint (xs @ ys) n
     = (case parse_uint xs n of Inl e \<Rightarrow> Inl e | Inr m \<Rightarrow> parse_uint ys m)"
  by (induction xs arbitrary: n) (simp_all split: option.split)

lemma parse_uint_decimal: "n < 2 ^ 64 \<Longrightarrow> parse_uint (decimal n) 0 = Inr n"
proof (induction n rule: decimal.induct)
  case (1 n)
  show ?case
  proof (cases "n < 10")
    case True
    then show ?thesis
      by (subst decimal.simps) (simp add: digit_val_digit_char)
  next
    case False
    have "n div 10 < 2 ^ 64"
      using "1.prems" by simp
    with False have "parse_uint (decimal (n div 10)) 0 = Inr (n div 10)"
      by (rule "1.IH")
    moreover have "\<not> 2 ^ 64 div 10 + 1 \<le> n div 10" "\<not> 2 ^ 64 - 1 < n"
      using "1.prems" by simp_all
    ultimately show ?thesis
      using False
      by (subst decimal.simps) (simp add: parse_uint_append digit_val_digit_char)
  qed
qed

lemma decimal_first: "\<exists>c cs. decimal n = c # cs \<and> c \<noteq> CHR ''-'' \<and> c \<noteq> CHR ''+''"
proof (induction n rule: decimal.induct)
  case (1 n)
  show ?case
  proof (cases "n < 10")
    case True
    then show ?thesis
      by (subst decimal.simps) (simp add: digit_char_not_sign)
  next
    case False
    then obtain c cs where "decimal (n div 10) = c # cs" "c \<noteq> CHR ''-''" "c \<noteq> CHR ''+''"
      using "1.IH" by blast
    then show ?thesis
      using False
      by (subst decimal.simps) simp
  qed
qed

lemma Atoi_Itoa: "Atoi (Itoa i) = Inr i"
proof (cases "sint i < 0")
  case True
  define n where "n = nat (- sint i)"
  have "- (2 ^ 63) \<le> sint i"
    using sint_ge [of i] by simp
  then have bound: "n \<le> 2 ^ 63"
    using True by (simp add: n_def nat_le_iff)
  obtain c cs where dec: "decimal n = c # cs"
    using decimal_first [of n] by blast
  have again: "word_of_int (- int n) = i"
    using True by (simp add: n_def)
  have "parse_uint (decimal n) 0 = Inr n"
    using bound by (intro parse_uint_decimal) simp
  then have "Atoi (CHR ''-'' # decimal n) = Inr (word_of_int (- int n))"
    using bound dec
    by (simp add: Atoi_def)
  then show ?thesis
    using True again by (simp add: Itoa_def n_def)
next
  case False
  define n where "n = nat (sint i)"
  have "sint i < 2 ^ 63"
    using sint_lt [of i] by simp
  then have bound: "n < 2 ^ 63"
    using False by (simp add: n_def nat_less_iff)
  obtain c cs where dec: "decimal n = c # cs" "c \<noteq> CHR ''-''" "c \<noteq> CHR ''+''"
    using decimal_first [of n] by blast
  have again: "word_of_int (int n) = i"
    using False by (simp add: n_def)
  have "parse_uint (decimal n) 0 = Inr n"
    using bound by (intro parse_uint_decimal) simp
  then have "Atoi (decimal n) = Inr (word_of_int (int n))"
    using bound dec
    by (simp add: Atoi_def)
  then show ?thesis
    using False again by (simp add: Itoa_def n_def)
qed

section \<open>The lister\<close>

lemma getDNSEntries_loop_walked:
  "walked d tr zone opt script \<Longrightarrow>
   getDNSEntries_loop d zone opt records tr
     = getDNSEntries_loop d zone (walk_options opt script)
         (records @ translated (concat (map fst script))) (tr @ walk_calls zone opt script)"
proof (induction script arbitrary: opt records tr)
  case Nil
  then show ?case by (simp add: translated_def)
next
  case (Cons x script)
  obtain domains page where x: "x = (domains, page)"
    by (cases x)
  from Cons.prems x have
    answer: "Records d tr zone opt
               = Inr (domains, \<lparr>Links = Some \<lparr>IsLastPage = False, CurrentPage = Inr page\<rparr>\<rparr>)"
    and rest: "walked d (tr @ [RecordsCall zone opt]) zone (opt\<lparr>Page := page + 1\<rparr>) script"
    by simp_all
  have "getDNSEntries_loop d zone opt records tr
          = getDNSEntries_loop d zone (opt\<lparr>Page := page + 1\<rparr>)
              (records @ translated domains) (tr @ [RecordsCall zone opt])"
    by (subst getDNSEntries_loop.simps) (simp add: answer translated_def Let_def)
  also have "\<dots> = getDNSEntries_loop d zone (walk_options (opt\<lparr>Page := page + 1\<rparr>) script)
                     ((records @ translated domains) @ translated (concat (map fst script)))
                     ((tr @ [RecordsCall zone opt])
                        @ walk_calls zone (opt\<lparr>Page := page + 1\<rparr>) script)"
    by (rule Cons.IH [OF rest])
  finally show ?case
    by (simp add: x translated_def)
qed

lemma getDNSEntries_loop_error:
  "Records d tr zone opt = Inl err \<Longrightarrow>
   getDNSEntries_loop d zone opt records tr = Some ((records, Some err), tr @ [RecordsCall zone opt])"
  by (subst getDNSEntries_loop.simps) simp

lemma getDNSEntries_loop_last:
  "Records d tr zone opt = Inr (domains, \<lparr>Links = Some links\<rparr>) \<Longrightarrow> IsLastPage links \<Longrightarrow>
   getDNSEntries_loop d zone opt records tr
     = Some ((records @ translated domains, None), tr @ [RecordsCall zone opt])"
  by (subst getDNSEntries_loop.simps) (simp add: translated_def Let_def)

lemma getDNSEntries_loop_malformed:
  "Records d tr zone opt = Inr (domains, \<lparr>Links = Some links\<rparr>) \<Longrightarrow> \<not> IsLastPage links \<Longrightarrow>
   CurrentPage links = Inl err \<Longrightarrow>
   getDNSEntries_loop d zone opt records tr
     = Some ((records @ translated domains, Some err), tr @ [RecordsCall zone opt])"
  by (subst getDNSEntries_loop.simps) (simp add: translated_def Let_def)

lemma walk_calls_numbered:
  "walk_calls zone \<lparr>Page = p, PerPage = q\<rparr> (numbered (Suc k) pages)
     @ [RecordsCall zone (walk_options \<lparr>Page = p, PerPage = q\<rparr> (numbered (Suc k) pages))]
   = map (\<lambda>n. RecordsCall zone \<lparr>Page = n, PerPage = q\<rparr>)
       (p # map of_nat [Suc (Suc k)..<Suc (Suc k) + length pages])"
proof (induction pages arbitrary: p k)
  case Nil
  then show ?case by simp
next
  case (Cons domains pages)
  have len: "Suc (Suc k) + length (domains # pages) = Suc (Suc (Suc k)) + length pages"
    by simp
  have "[Suc (Suc k)..<Suc (Suc (Suc k)) + length pages]
          = Suc (Suc k) # [Suc (Suc (Suc k))..<Suc (Suc (Suc k)) + length pages]"
    by (rule upt_conv_Cons) simp
  then show ?case
    unfolding len
    using Cons.IH [of "of_nat (Suc k) + 1" "Suc k"]
    by (simp del: upt_Suc)
qed

text \<open>
  C3. Let the provider serve a zone in \<open>N\<close> pages: the first \<open>N - 1\<close> with page links
  present, not marked last and reporting their own page number, the \<open>N\<close>-th with page
  links marked last. Then \<open>getDNSEntries\<close> returns, with no error, the entries of all
  pages in the order served, each translated by \<open>godoToRecord\<close>. It makes exactly \<open>N\<close>
  listing requests: the first with the page left unset, then one for page \<open>k + 1\<close> after
  each page \<open>k\<close>.
\<close>

theorem pagination_completeness:
  assumes "walked d tr zone \<lparr>Page = 0, PerPage = 0\<rparr> (numbered 1 pages)"
    and "Records d (tr @ walk_calls zone \<lparr>Page = 0, PerPage = 0\<rparr> (numbered 1 pages)) zone
           (walk_options \<lparr>Page = 0, PerPage = 0\<rparr> (numbered 1 pages))
         = Inr (lastPage, \<lparr>Links = Some links\<rparr>)"
    and "IsLastPage links"
  shows "getDNSEntries d zone tr
           = Some ((translated (concat (pages @ [lastPage])), None),
                   tr @ map (\<lambda>n. RecordsCall zone \<lparr>Page = n, PerPage = 0\<rparr>)
                          (0 # map of_nat [2..<2 + length pages]))
         \<and> length (0 # map of_nat [2..<2 + length pages] :: go_int list) = length (pages @ [lastPage])"
proof -
  have fsts: "\<And>k. map fst (numbered k pages) = pages"
    by (induction pages) simp_all
  have "getDNSEntries d zone tr
          = getDNSEntries_loop d zone (walk_options \<lparr>Page = 0, PerPage = 0\<rparr> (numbered 1 pages))
              ([] @ translated (concat (map fst (numbered 1 pages))))
              (tr @ walk_calls zone \<lparr>Page = 0, PerPage = 0\<rparr> (numbered 1 pages))"
    unfolding getDNSEntries_def by (rule getDNSEntries_loop_walked [OF assms(1)])
  also have "\<dots> = Some ((([] @ translated (concat (map fst (numbered 1 pages))))
                            @ translated lastPage, None),
                         (tr @ walk_calls zone \<lparr>Page = 0, PerPage = 0\<rparr> (numbered 1 pages))
                           @ [RecordsCall zone
                                (walk_options \<lparr>Page = 0, PerPage = 0\<rparr> (numbered 1 pages))])"
    by (rule getDNSEntries_loop_last [OF assms(2) assms(3)])
  finally have result: "getDNSEntries d zone tr
      = Some ((translated (concat (pages @ [lastPage])), None),
              tr @ (walk_calls zone \<lparr>Page = 0, PerPage = 0\<rparr> (numbered 1 pages)
                      @ [RecordsCall zone
                           (walk_options \<lparr>Page = 0, PerPage = 0\<rparr> (numbered 1 pages))]))"
    by (simp add: fsts translated_def)
  have two: "[2..<2 + length pages] = [Suc (Suc 0)..<Suc (Suc 0) + length pages]"
    by (simp only: numeral_2_eq_2)
  show ?thesis
    unfolding result two
    using walk_calls_numbered [of zone 0 0 0 pages]
    by (simp del: upt_Suc)
qed

lemma translated_mockRecords:
  "translated [mockRecordA, mockRecordCNAME]
     = [DNSValue \<lparr>DNS.Record = \<lparr>RR.Name = ''test'', RR.TTL = 3600000000000, RR.Type = ''A'',
                                  RR.Data = ''192.168.1.1''\<rparr>, DNS.ID = ''1''\<rparr>,
        DNSValue \<lparr>DNS.Record = \<lparr>RR.Name = ''www'', RR.TTL = 1800000000000, RR.Type = ''CNAME'',
                                  RR.Data = ''example.com''\<rparr>, DNS.ID = ''2''\<rparr>]"
  by (simp add: translated_def godoToRecord_def mockRecordA_def mockRecordCNAME_def Second_def
      Itoa_def decimal.simps digit_char_def)

theorem pagination_completeness_witness:
  "walked (pagedService twoPages) [] ''example.com'' \<lparr>Page = 0, PerPage = 0\<rparr>
     (numbered 1 [[mockRecordA]])
   \<and> getDNSEntries (pagedService twoPages) ''example.com'' []
       = Some (([DNSValue \<lparr>DNS.Record = \<lparr>RR.Name = ''test'', RR.TTL = 3600000000000,
                                           RR.Type = ''A'', RR.Data = ''192.168.1.1''\<rparr>,
                          DNS.ID = ''1''\<rparr>,
                 DNSValue \<lparr>DNS.Record = \<lparr>RR.Name = ''www'', RR.TTL = 1800000000000,
                                           RR.Type = ''CNAME'', RR.Data = ''example.com''\<rparr>,
                          DNS.ID = ''2''\<rparr>], None),
               [RecordsCall ''example.com'' \<lparr>Page = 0, PerPage = 0\<rparr>,
                RecordsCall ''example.com'' \<lparr>Page = 2, PerPage = 0\<rparr>])"
proof -
  have w: "walked (pagedService twoPages) [] ''example.com'' \<lparr>Page = 0, PerPage = 0\<rparr>
             (numbered 1 [[mockRecordA]])"
    by (simp add: pagedService_def mockDomainsService_def twoPages_def)
  have l: "Records (pagedService twoPages)
             ([] @ walk_calls ''example.com'' \<lparr>Page = 0, PerPage = 0\<rparr> (numbered 1 [[mockRecordA]]))
             ''example.com'' (walk_options \<lparr>Page = 0, PerPage = 0\<rparr> (numbered 1 [[mockRecordA]]))
           = Inr ([mockRecordCNAME], \<lparr>Links = Some \<lparr>IsLastPage = True, CurrentPage = Inr 2\<rparr>\<rparr>)"
    by (simp add: pagedService_def mockDomainsService_def twoPages_def)
  have i: "IsLastPage \<lparr>IsLastPage = True, CurrentPage = Inr 2\<rparr>"
    by simp
  show ?thesis
    using w pagination_completeness [OF w l i] translated_mockRecords
    by simp
qed

text \<open>
  C6. Whatever pages a walk has been served so far, when the next listing request
  fails, \<open>getDNSEntries\<close> makes no further request and returns that error together with
  the translated entries of the pages served before it.
\<close>

theorem listing_error_aborts_walk:
  assumes "walked d tr zone \<lparr>Page = 0, PerPage = 0\<rparr> script"
    and "Records d (tr @ walk_calls zone \<lparr>Page = 0, PerPage = 0\<rparr> script) zone
           (walk_options \<lparr>Page = 0, PerPage = 0\<rparr> script)
         = Inl err"
  shows "getDNSEntries d zone tr
           = Some ((translated (concat (map fst script)), Some err),
                   tr @ walk_calls zone \<lparr>Page = 0, PerPage = 0\<rparr> script
                      @ [RecordsCall zone (walk_options \<lparr>Page = 0, PerPage = 0\<rparr> script)])"
proof -
  have "getDNSEntries d zone tr
          = getDNSEntries_loop d zone (walk_options \<lparr>Page = 0, PerPage = 0\<rparr> script)
              ([] @ translated (concat (map fst script)))
              (tr @ walk_calls zone \<lparr>Page = 0, PerPage = 0\<rparr> script)"
    unfolding getDNSEntries_def by (rule getDNSEntries_loop_walked [OF assms(1)])
  also have "\<dots> = Some (([] @ translated (concat (map fst script)), Some err),
                         (tr @ walk_calls zone \<lparr>Page = 0, PerPage = 0\<rparr> script)
                           @ [RecordsCall zone (walk_options \<lparr>Page = 0, PerPage = 0\<rparr> script)])"
    by (rule getDNSEntries_loop_error [OF assms(2)])
  finally show ?thesis
    by simp
qed

theorem listing_error_aborts_walk_witness:
  "walked (pagedService failingSecondPage) [] ''example.com'' \<lparr>Page = 0, PerPage = 0\<rparr>
     [([mockRecordA], 1)]
   \<and> getDNSEntries (pagedService failingSecondPage) ''example.com'' []
       = Some ((translated [mockRecordA], Some (ClientError ''API error'')),
               [RecordsCall ''example.com'' \<lparr>Page = 0, PerPage = 0\<rparr>,
                RecordsCall ''example.com'' \<lparr>Page = 2, PerPage = 0\<rparr>])
   \<and> getDNSEntries (mockDomainsService [] (Some (ClientError ''API error''))) ''example.com'' []
       = Some (([], Some (ClientError ''API error'')),
               [RecordsCall ''example.com'' \<lparr>Page = 0, PerPage = 0\<rparr>])"
proof -
  have w: "walked (pagedService failingSecondPage) [] ''example.com'' \<lparr>Page = 0, PerPage = 0\<rparr>
             [([mockRecordA], 1)]"
    by (simp add: pagedService_def mockDomainsService_def failingSecondPage_def)
  have e: "Records (pagedService failingSecondPage)
             ([] @ walk_calls ''example.com'' \<lparr>Page = 0, PerPage = 0\<rparr> [([mockRecordA], 1)])
             ''example.com'' (walk_options \<lparr>Page = 0, PerPage = 0\<rparr> [([mockRecordA], 1)])
           = Inl (ClientError ''API error'')"
    by (simp add: pagedService_def mockDomainsService_def failingSecondPage_def)
  have w0: "walked (mockDomainsService [] (Some (ClientError ''API error''))) [] ''example.com''
              \<lparr>Page = 0, PerPage = 0\<rparr> []"
    by simp
  have e0: "Records (mockDomainsService [] (Some (ClientError ''API error'')))
              ([] @ walk_calls ''example.com'' \<lparr>Page = 0, PerPage = 0\<rparr> [])
              ''example.com'' (walk_options \<lparr>Page = 0, PerPage = 0\<rparr> [])
            = Inl (ClientError ''API error'')"
    by (simp add: mockDomainsService_def)
  show ?thesis
    using w listing_error_aborts_walk [OF w e] listing_error_aborts_walk [OF w0 e0]
    by (simp add: translated_def)
qed

text \<open>
  C7. Whatever pages a walk has been served so far, when the next page is not marked
  last and its page links do not parse, \<open>getDNSEntries\<close> stops there and returns the
  parse error, beside the entries accumulated up to and including that page; the listing
  does not go on as if nothing had happened. \<open>GetRecords\<close> hands the caller that error
  and no records.
\<close>

theorem malformed_page_links_fail_listing:
  assumes "walked d tr (unFQDN zone) \<lparr>Page = 0, PerPage = 0\<rparr> script"
    and "Records d (tr @ walk_calls (unFQDN zone) \<lparr>Page = 0, PerPage = 0\<rparr> script) (unFQDN zone)
           (walk_options \<lparr>Page = 0, PerPage = 0\<rparr> script)
         = Inr (domains, \<lparr>Links = Some links\<rparr>)"
    and "\<not> IsLastPage links"
    and "CurrentPage links = Inl err"
  shows "getDNSEntries d (unFQDN zone) tr
           = Some ((translated (concat (map fst script) @ domains), Some err),
                   tr @ walk_calls (unFQDN zone) \<lparr>Page = 0, PerPage = 0\<rparr> script
                      @ [RecordsCall (unFQDN zone)
                           (walk_options \<lparr>Page = 0, PerPage = 0\<rparr> script)])
         \<and> GetRecords d zone tr
           = Some (([], Some err),
                   tr @ walk_calls (unFQDN zone) \<lparr>Page = 0, PerPage = 0\<rparr> script
                      @ [RecordsCall (unFQDN zone)
                           (walk_options \<lparr>Page = 0, PerPage = 0\<rparr> script)])"
proof -
  have "getDNSEntries d (unFQDN zone) tr
          = getDNSEntries_loop d (unFQDN zone) (walk_options \<lparr>Page = 0, PerPage = 0\<rparr> script)
              ([] @ translated (concat (map fst script)))
              (tr @ walk_calls (unFQDN zone) \<lparr>Page = 0, PerPage = 0\<rparr> script)"
    unfolding getDNSEntries_def by (rule getDNSEntries_loop_walked [OF assms(1)])
  also have "\<dots> = Some ((([] @ translated (concat (map fst script))) @ translated domains,
                          Some err),
                         (tr @ walk_calls (unFQDN zone) \<lparr>Page = 0, PerPage = 0\<rparr> script)
                           @ [RecordsCall (unFQDN zone)
                                (walk_options \<lparr>Page = 0, PerPage = 0\<rparr> script)])"
    by (rule getDNSEntries_loop_malformed [OF assms(2) assms(3) assms(4)])
  finally have listing: "getDNSEntries d (unFQDN zone) tr
      = Some ((translated (concat (map fst script) @ domains), Some err),
              tr @ walk_calls (unFQDN zone) \<lparr>Page = 0, PerPage = 0\<rparr> script
                 @ [RecordsCall (unFQDN zone) (walk_options \<lparr>Page = 0, PerPage = 0\<rparr> script)])"
    by (simp add: translated_def)
  then show ?thesis
    by (simp add: GetRecords_def)
qed

theorem malformed_page_links_fail_listing_witness:
  "walked (pagedService malformedSecondPage) [] (unFQDN ''example.com.'')
     \<lparr>Page = 0, PerPage = 0\<rparr> [([mockRecordA], 1)]
   \<and> getDNSEntries (pagedService malformedSecondPage) ''example.com'' []
       = Some ((translated [mockRecordA, mockRecordCNAME], Some (ClientError ''invalid page link'')),
               [RecordsCall ''example.com'' \<lparr>Page = 0, PerPage = 0\<rparr>,
                RecordsCall ''example.com'' \<lparr>Page = 2, PerPage = 0\<rparr>])
   \<and> GetRecords (pagedService malformedSecondPage) ''example.com.'' []
       = Some (([], Some (ClientError ''invalid page link'')),
               [RecordsCall ''example.com'' \<lparr>Page = 0, PerPage = 0\<rparr>,
                RecordsCall ''example.com'' \<lparr>Page = 2, PerPage = 0\<rparr>])"
proof -
  have z: "unFQDN ''example.com.'' = ''example.com''"
    by (simp add: unFQDN_def)
  have w: "walked (pagedService malformedSecondPage) [] (unFQDN ''example.com.'')
             \<lparr>Page = 0, PerPage = 0\<rparr> [([mockRecordA], 1)]"
    by (simp add: pagedService_def mockDomainsService_def malformedSecondPage_def)
  have m: "Records (pagedService malformedSecondPage)
             ([] @ walk_calls (unFQDN ''example.com.'') \<lparr>Page = 0, PerPage = 0\<rparr>
                     [([mockRecordA], 1)])
             (unFQDN ''example.com.'')
             (walk_options \<lparr>Page = 0, PerPage = 0\<rparr> [([mockRecordA], 1)])
           = Inr ([mockRecordCNAME],
                  \<lparr>Links = Some \<lparr>IsLastPage = False,
                                  CurrentPage = Inl (ClientError ''invalid page link'')\<rparr>\<rparr>)"
    by (simp add: pagedService_def mockDomainsService_def malformedSecondPage_def)
  have n: "\<not> IsLastPage \<lparr>IsLastPage = False, CurrentPage = Inl (ClientError ''invalid page link'')\<rparr>"
    by simp
  have c: "CurrentPage \<lparr>IsLastPage = False, CurrentPage = Inl (ClientError ''invalid page link'')\<rparr>
             = Inl (ClientError ''invalid page link'')"
    by simp
  show ?thesis
    using w malformed_page_links_fail_listing [OF w m n c]
    by (simp add: z)
qed

section \<open>The mutator\<close>

text \<open>
  C1. A record passed to \<open>removeDNSEntry\<close> or \<open>updateDNSEntry\<close> that is not a \<open>DNS\<close>
  value, or whose \<open>ID\<close> \<open>strconv.Atoi\<close> rejects, comes back together with an error,
  and the list of requests made is what it was: nothing was sent to the provider.
\<close>

theorem identifier_gating:
  assumes "(\<forall>r. record \<noteq> DNSValue r) \<or> (\<exists>r e. record = DNSValue r \<and> Atoi (DNS.ID r) = Inl e)"
  shows "\<exists>err. Atoi (idRaw record) = Inl err
             \<and> removeDNSEntry d zone record tr = ((record, Some err), tr)
             \<and> updateDNSEntry d zone record tr = ((record, Some err), tr)"
proof -
  have "\<exists>err. Atoi (idRaw record) = Inl err"
    using assms
  proof
    assume "\<forall>r. record \<noteq> DNSValue r"
    then have "idRaw record = []"
      by (cases "record") (simp_all add: idRaw_def)
    then show ?thesis
      by (simp add: Atoi_def)
  next
    assume "\<exists>r e. record = DNSValue r \<and> Atoi (DNS.ID r) = Inl e"
    then show ?thesis
      by (auto simp: idRaw_def)
  qed
  then obtain err where "Atoi (idRaw record) = Inl err" ..
  then show ?thesis
    by (simp add: removeDNSEntry_def updateDNSEntry_def)
qed

theorem identifier_gating_witness:
  "Atoi ''invalid'' = Inl (NumError ''Atoi'' ''invalid'' ErrSyntax)
   \<and> removeDNSEntry (mockDomainsService [] None) ''example.com''
         (DNSValue \<lparr>DNS.Record = testRR, DNS.ID = ''invalid''\<rparr>) []
       = ((DNSValue \<lparr>DNS.Record = testRR, DNS.ID = ''invalid''\<rparr>,
           Some (NumError ''Atoi'' ''invalid'' ErrSyntax)), [])
   \<and> updateDNSEntry (mockDomainsService [] None) ''example.com''
         (DNSValue \<lparr>DNS.Record = testRR, DNS.ID = ''invalid''\<rparr>) []
       = ((DNSValue \<lparr>DNS.Record = testRR, DNS.ID = ''invalid''\<rparr>,
           Some (NumError ''Atoi'' ''invalid'' ErrSyntax)), [])
   \<and> removeDNSEntry (mockDomainsService [] None) ''example.com'' (RRValue testRR) []
       = ((RRValue testRR, Some (NumError ''Atoi'' [] ErrSyntax)), [])
   \<and> updateDNSEntry (mockDomainsService [] None) ''example.com'' (RRValue testRR) []
       = ((RRValue testRR, Some (NumError ''Atoi'' [] ErrSyntax)), [])"
  using identifier_gating [of "DNSValue \<lparr>DNS.Record = testRR, DNS.ID = ''invalid''\<rparr>"
      "mockDomainsService [] None" "''example.com''" "[]"]
    identifier_gating [of "RRValue testRR" "mockDomainsService [] None" "''example.com''" "[]"]
    Atoi_invalid Atoi_empty
  by (simp add: idRaw_def)

text \<open>
  C2. When the provider answers the create request with a record, \<open>addDNSEntry\<close> returns
  a \<open>DNS\<close> value whose \<open>Record\<close> is the input's \<open>RR()\<close> (name, type, data and TTL) and
  whose \<open>ID\<close> is \<open>strconv.Itoa\<close> of the returned numeric identifier, with no error;
  when the provider answers with an error, it returns the input record and that error.
\<close>

theorem addDNSEntry_assigns_identifier:
  "(CreateRecord d tr zone (recordToGoDo record) = Inr rec \<longrightarrow>
      (\<exists>created. fst (addDNSEntry d zone record tr) = (DNSValue created, None)
         \<and> DNS.Record created = RR_of record
         \<and> DNS.ID created = Itoa (DomainRecord.ID rec)))
   \<and> (CreateRecord d tr zone (recordToGoDo record) = Inl err \<longrightarrow>
        fst (addDNSEntry d zone record tr) = (record, Some err))"
  by (simp add: addDNSEntry_def recordToGoDo_def fromRecord_def Let_def)

theorem addDNSEntry_assigns_identifier_witness:
  "(\<exists>created. fst (addDNSEntry (mockDomainsService [] None) ''example.com'' (RRValue testRR) [])
        = (DNSValue created, None)
      \<and> DNS.Record created = testRR \<and> DNS.ID created = ''12345'')
   \<and> fst (addDNSEntry (mockDomainsService [] (Some (ClientError ''API error''))) ''example.com''
          (RRValue testRR) [])
       = (RRValue testRR, Some (ClientError ''API error''))"
  using addDNSEntry_assigns_identifier [of "mockDomainsService [] None" "[]" "''example.com''"
      "RRValue testRR"
      "\<lparr>DomainRecord.ID = 12345,
        DomainRecord.Type = DomainRecordEditRequest.Type (recordToGoDo (RRValue testRR)),
        DomainRecord.Name = DomainRecordEditRequest.Name (recordToGoDo (RRValue testRR)),
        DomainRecord.Data = DomainRecordEditRequest.Data (recordToGoDo (RRValue testRR)),
        DomainRecord.TTL = DomainRecordEditRequest.TTL (recordToGoDo (RRValue testRR))\<rparr>"]
    addDNSEntry_assigns_identifier [of "mockDomainsService [] (Some (ClientError ''API error''))"
      "[]" "''example.com''" "RRValue testRR" _ "ClientError ''API error''"]
    Itoa_12345
  by (simp add: mockDomainsService_def)

text \<open>
  C8. For a record whose identifier parses, \<open>removeDNSEntry\<close> and \<open>updateDNSEntry\<close>
  return the input record itself: with no error when the provider's call succeeds
  (whatever record the edit returned), with the provider's error when it fails. Exactly
  one request is made, keyed by the parsed identifier.
\<close>

theorem update_delete_return_input:
  assumes "Atoi (idRaw record) = Inr n"
  shows "(DeleteRecord d tr zone n = None \<longrightarrow>
            removeDNSEntry d zone record tr = ((record, None), tr @ [DeleteRecordCall zone n]))
       \<and> (DeleteRecord d tr zone n = Some err \<longrightarrow>
            removeDNSEntry d zone record tr = ((record, Some err), tr @ [DeleteRecordCall zone n]))
       \<and> (EditRecord d tr zone n (recordToGoDo record) = Inr rec \<longrightarrow>
            updateDNSEntry d zone record tr
              = ((record, None), tr @ [EditRecordCall zone n (recordToGoDo record)]))
       \<and> (EditRecord d tr zone n (recordToGoDo record) = Inl err \<longrightarrow>
            updateDNSEntry d zone record tr
              = ((record, Some err), tr @ [EditRecordCall zone n (recordToGoDo record)]))"
  using assms
  by (simp add: removeDNSEntry_def updateDNSEntry_def recordToGoDo_def Let_def)

theorem update_delete_return_input_witness:
  "Atoi (idRaw (DNSValue testDNS)) = Inr 1
   \<and> removeDNSEntry (mockDomainsService [] None) ''example.com'' (DNSValue testDNS) []
       = ((DNSValue testDNS, None), [DeleteRecordCall ''example.com'' 1])
   \<and> removeDNSEntry (mockDomainsService [] (Some (ClientError ''API error''))) ''example.com''
         (DNSValue testDNS) []
       = ((DNSValue testDNS, Some (ClientError ''API error'')), [DeleteRecordCall ''example.com'' 1])
   \<and> updateDNSEntry (mockDomainsService [] None) ''example.com'' (DNSValue testDNS) []
       = ((DNSValue testDNS, None),
          [EditRecordCall ''example.com'' 1 (recordToGoDo (DNSValue testDNS))])
   \<and> updateDNSEntry (mockDomainsService [] (Some (ClientError ''API error''))) ''example.com''
         (DNSValue testDNS) []
       = ((DNSValue testDNS, Some (ClientError ''API error'')),
          [EditRecordCall ''example.com'' 1 (recordToGoDo (DNSValue testDNS))])"
proof -
  have a: "Atoi (idRaw (DNSValue testDNS)) = Inr 1"
    by (simp add: idRaw_def testDNS_def Atoi_1)
  show ?thesis
    using a
      update_delete_return_input [OF a, of "mockDomainsService [] None" "[]" "''example.com''"]
      update_delete_return_input [OF a,
        of "mockDomainsService [] (Some (ClientError ''API error''))" "[]" "''example.com''"
           "ClientError ''API error''"]
    by (simp add: mockDomainsService_def)
qed

section \<open>The facade\<close>

lemma routed_not_listing: "routed zone c r \<Longrightarrow> c \<noteq> RecordsCall z opt"
  by (auto simp: routed_def split: if_splits sum.splits)

lemma list_all2_routed_not_listing:
  "list_all2 (routed zone) new rs \<Longrightarrow> \<forall>c\<in>set new. \<forall>z opt. c \<noteq> RecordsCall z opt"
  by (induction new rs rule: list_all2_induct) (auto dest: routed_not_listing)

lemma owed_outcome:
  "(\<exists>res e. owed d zone r tr = ((res, Some e), tr))
   \<or> (\<exists>res err c. owed d zone r tr = ((res, err), tr @ [c]) \<and> routed zone c r)"
proof (cases "idRaw r \<noteq> []")
  case True
  show ?thesis
  proof (cases "Atoi (idRaw r)")
    case (Inl e)
    then show ?thesis
      using True by (simp add: owed_def updateDNSEntry_def)
  next
    case (Inr n)
    then show ?thesis
      using True
      by (simp add: owed_def updateDNSEntry_def routed_def recordToGoDo_def Let_def
          split: sum.split)
  qed
next
  case False
  then show ?thesis
    by (simp add: owed_def addDNSEntry_def routed_def recordToGoDo_def Let_def split: sum.split)
qed

lemma SetRecords_loop_step:
  "SetRecords_loop d zone (r # rs) acc tr =
     (case owed d zone r tr of
        ((res, Some e), tr') \<Rightarrow> ((acc, Some e), tr')
      | ((res, None), tr') \<Rightarrow> SetRecords_loop d zone rs (acc @ [res]) tr')"
  by (simp add: owed_def)

lemma SetRecords_loop_run:
  "\<exists>out err new.
     SetRecords_loop d zone records acc tr = ((acc @ out, err), tr @ new)
     \<and> length out \<le> length new \<and> length new \<le> length records
     \<and> list_all2 (routed zone) new (take (length new) records)
     \<and> (\<forall>i<length out. owed d zone (records ! i) (tr @ take i new)
                            = ((out ! i, None), tr @ take (Suc i) new))
     \<and> (err = None \<longrightarrow> length out = length records \<and> length new = length records)
     \<and> (\<forall>e. err = Some e \<longrightarrow>
            length out < length records
            \<and> snd (fst (owed d zone (records ! length out) (tr @ take (length out) new))) = Some e
            \<and> snd (owed d zone (records ! length out) (tr @ take (length out) new)) = tr @ new)"
proof (induction records arbitrary: acc tr)
  case Nil
  show ?case
    by (intro exI [of _ "[]"] exI [of _ None]) simp
next
  case (Cons r rs)
  consider (stuck) res e where "owed d zone r tr = ((res, Some e), tr)"
    | (failed) res e c where "owed d zone r tr = ((res, Some e), tr @ [c])" "routed zone c r"
    | (served) res c where "owed d zone r tr = ((res, None), tr @ [c])" "routed zone c r"
  proof -
    from owed_outcome [of d zone r tr] show ?thesis
    proof
      assume "\<exists>res e. owed d zone r tr = ((res, Some e), tr)"
      then show ?thesis using stuck by blast
    next
      assume "\<exists>res err c. owed d zone r tr = ((res, err), tr @ [c]) \<and> routed zone c r"
      then obtain res err c where o: "owed d zone r tr = ((res, err), tr @ [c])" "routed zone c r"
        by blast
      show ?thesis
      proof (cases err)
        case None
        then show ?thesis using o served by blast
      next
        case (Some e)
        then show ?thesis using o failed by blast
      qed
    qed
  qed
  then show ?case
  proof cases
    case stuck
    then have "SetRecords_loop d zone (r # rs) acc tr = ((acc @ [], Some e), tr @ [])"
      by (simp add: SetRecords_loop_step del: SetRecords_loop.simps)
    then show ?thesis
      using stuck
      by (intro exI [of _ "[]"] exI [of _ "Some e"]) simp
  next
    case failed
    then have "SetRecords_loop d zone (r # rs) acc tr = ((acc @ [], Some e), tr @ [c])"
      by (simp add: SetRecords_loop_step del: SetRecords_loop.simps)
    then show ?thesis
      using failed
      by (intro exI [of _ "[]"] exI [of _ "Some e"] exI [of _ "[c]"]) simp
  next
    case served
    obtain out err new where IH:
      "SetRecords_loop d zone rs (acc @ [res]) (tr @ [c]) = (((acc @ [res]) @ out, err), (tr @ [c]) @ new)"
      "length out \<le> length new" "length new \<le> length rs"
      "list_all2 (routed zone) new (take (length new) rs)"
      "\<forall>i<length out. owed d zone (rs ! i) ((tr @ [c]) @ take i new)
                            = ((out ! i, None), (tr @ [c]) @ take (Suc i) new)"
      "err = None \<longrightarrow> length out = length rs \<and> length new = length rs"
      "\<forall>e. err = Some e \<longrightarrow>
            length out < length rs
            \<and> snd (fst (owed d zone (rs ! length out) ((tr @ [c]) @ take (length out) new))) = Some e
            \<and> snd (owed d zone (rs ! length out) ((tr @ [c]) @ take (length out) new)) = (tr @ [c]) @ new"
      using Cons.IH [of "acc @ [res]" "tr @ [c]"] by blast
    have run: "SetRecords_loop d zone (r # rs) acc tr = ((acc @ res # out, err), tr @ c # new)"
      using served(1) IH(1) by (simp add: SetRecords_loop_step del: SetRecords_loop.simps)
    have idx: "\<forall>i<length (res # out). owed d zone ((r # rs) ! i) (tr @ take i (c # new))
                            = (((res # out) ! i, None), tr @ take (Suc i) (c # new))"
    proof (intro allI impI)
      fix i assume i: "i < length (res # out)"
      show "owed d zone ((r # rs) ! i) (tr @ take i (c # new))
              = (((res # out) ! i, None), tr @ take (Suc i) (c # new))"
      proof (cases i)
        case 0
        then show ?thesis using served(1) by simp
      next
        case (Suc j)
        then have "j < length out" using i by simp
        then show ?thesis using IH(5) Suc by simp
      qed
    qed
    show ?thesis
      using run idx IH(2,3,4,6,7) served(2)
      by (intro exI [of _ "res # out"] exI [of _ err] exI [of _ "c # new"]) simp
  qed
qed

lemma SetRecords_mixed_batch:
  "SetRecords (mockDomainsService [] None) ''example.com.'' [DNSValue testDNS, RRValue testRR] []
     = (([DNSValue testDNS, DNSValue \<lparr>DNS.Record = testRR, DNS.ID = ''12345''\<rparr>], None),
        [EditRecordCall ''example.com'' 1 (recordToGoDo (DNSValue testDNS)),
         CreateRecordCall ''example.com'' (recordToGoDo (RRValue testRR))])"
  by (simp add: SetRecords_def unFQDN_def idRaw_def testDNS_def updateDNSEntry_def addDNSEntry_def
      mockDomainsService_def Atoi_1 recordToGoDo_def fromRecord_def Itoa_12345 Let_def)

lemma SetRecords_failing_batch:
  "SetRecords (mockDomainsService [] None) ''example.com.''
     [RRValue testRR, DNSValue \<lparr>DNS.Record = testRR, DNS.ID = ''invalid''\<rparr>, RRValue testRR] []
     = (([DNSValue \<lparr>DNS.Record = testRR, DNS.ID = ''12345''\<rparr>],
         Some (NumError ''Atoi'' ''invalid'' ErrSyntax)),
        [CreateRecordCall ''example.com'' (recordToGoDo (RRValue testRR))])"
  by (simp add: SetRecords_def unFQDN_def idRaw_def updateDNSEntry_def addDNSEntry_def
      mockDomainsService_def Atoi_invalid recordToGoDo_def fromRecord_def Itoa_12345 Let_def)

text \<open>
  C4. \<open>SetRecords\<close> on a single record behaves as \<open>updateDNSEntry\<close> when the record
  carries a non-empty identifier and as \<open>addDNSEntry\<close> when it carries none (same error,
  same requests). On any batch it takes the records in order and runs on each the operation
  owed to it, after the requests of the records before it: every record returned is what
  that operation returned with no error, and the requests added line up with the input
  records, each one the edit or the create owed to its record. When it reports no error,
  every input record has been routed and has its result; when it reports an error, that
  error is the one of the operation owed to the first record without a result, and no
  later record is touched. No listing request, and so no lookup of the zone, is ever
  made.
\<close>

theorem SetRecords_dispatch:
  assumes "SetRecords d zone records tr = ((setRecords, err), tr')"
  shows "(idRaw record \<noteq> [] \<longrightarrow>
      snd (fst (SetRecords d zone [record] tr)) = snd (fst (updateDNSEntry d (unFQDN zone) record tr))
      \<and> snd (SetRecords d zone [record] tr) = snd (updateDNSEntry d (unFQDN zone) record tr))
   \<and> (idRaw record = [] \<longrightarrow>
      snd (fst (SetRecords d zone [record] tr)) = snd (fst (addDNSEntry d (unFQDN zone) record tr))
      \<and> snd (SetRecords d zone [record] tr) = snd (addDNSEntry d (unFQDN zone) record tr))
   \<and> (\<exists>new. tr' = tr @ new
          \<and> length new \<le> length records
          \<and> list_all2 (routed (unFQDN zone)) new (take (length new) records)
          \<and> (\<forall>c\<in>set new. \<forall>z opt. c \<noteq> RecordsCall z opt)
          \<and> length setRecords \<le> length new
          \<and> (\<forall>i<length setRecords.
                owed d (unFQDN zone) (records ! i) (tr @ take i new)
                  = ((setRecords ! i, None), tr @ take (Suc i) new))
          \<and> (err = None \<longrightarrow>
                length setRecords = length records
                \<and> list_all2 (routed (unFQDN zone)) new records)
          \<and> (\<forall>e. err = Some e \<longrightarrow>
                length setRecords < length records
                \<and> owed d (unFQDN zone) (records ! length setRecords)
                      (tr @ take (length setRecords) new)
                    = ((fst (fst (owed d (unFQDN zone) (records ! length setRecords)
                                    (tr @ take (length setRecords) new))), Some e), tr')))"
proof -
  have single: "\<And>x. snd (fst (case x of
                     ((setRecord, Some err), tr') \<Rightarrow> (([], Some err), tr')
                   | ((setRecord, None), tr') \<Rightarrow> (([setRecord], None), tr'))) = snd (fst x)
                \<and> snd (case x of
                     ((setRecord, Some err), tr') \<Rightarrow> (([], Some err), tr')
                   | ((setRecord, None), tr') \<Rightarrow> (([setRecord], None), tr')) = snd x"
    by (auto split: prod.split option.split)
  obtain out err0 new where run:
    "SetRecords_loop d (unFQDN zone) records [] tr = (([] @ out, err0), tr @ new)"
    "length out \<le> length new" "length new \<le> length records"
    "list_all2 (routed (unFQDN zone)) new (take (length new) records)"
    "\<forall>i<length out. owed d (unFQDN zone) (records ! i) (tr @ take i new)
                       = ((out ! i, None), tr @ take (Suc i) new)"
    "err0 = None \<longrightarrow> length out = length records \<and> length new = length records"
    "\<forall>e. err0 = Some e \<longrightarrow>
       length out < length records
       \<and> snd (fst (owed d (unFQDN zone) (records ! length out) (tr @ take (length out) new)))
           = Some e
       \<and> snd (owed d (unFQDN zone) (records ! length out) (tr @ take (length out) new))
           = tr @ new"
    using SetRecords_loop_run [of d "unFQDN zone" records "[]" tr] by blast
  have names: "setRecords = out" "err = err0" "tr' = tr @ new"
    using assms run(1) by (simp_all add: SetRecords_def)
  have whole: "err0 = None \<longrightarrow> list_all2 (routed (unFQDN zone)) new records"
    using run(4,6) by auto
  have failing: "\<forall>e. err0 = Some e \<longrightarrow>
       owed d (unFQDN zone) (records ! length out) (tr @ take (length out) new)
         = ((fst (fst (owed d (unFQDN zone) (records ! length out)
                         (tr @ take (length out) new))), Some e), tr @ new)"
    using run(7) by (auto simp: prod_eq_iff)
  have batch: "\<exists>new. tr' = tr @ new
          \<and> length new \<le> length records
          \<and> list_all2 (routed (unFQDN zone)) new (take (length new) records)
          \<and> (\<forall>c\<in>set new. \<forall>z opt. c \<noteq> RecordsCall z opt)
          \<and> length setRecords \<le> length new
          \<and> (\<forall>i<length setRecords.
                owed d (unFQDN zone) (records ! i) (tr @ take i new)
                  = ((setRecords ! i, None), tr @ take (Suc i) new))
          \<and> (err = None \<longrightarrow>
                length setRecords = length records
                \<and> list_all2 (routed (unFQDN zone)) new records)
          \<and> (\<forall>e. err = Some e \<longrightarrow>
                length setRecords < length records
                \<and> owed d (unFQDN zone) (records ! length setRecords)
                      (tr @ take (length setRecords) new)
                    = ((fst (fst (owed d (unFQDN zone) (records ! length setRecords)
                                    (tr @ take (length setRecords) new))), Some e), tr'))"
    unfolding names
    using run(2-7) whole failing list_all2_routed_not_listing [OF run(4)]
    by (intro exI [of _ new]) simp
  show ?thesis
    using batch
      single [of "updateDNSEntry d (unFQDN zone) record tr"]
      single [of "addDNSEntry d (unFQDN zone) record tr"]
    by (simp add: SetRecords_def)
qed

theorem SetRecords_dispatch_witness:
  "SetRecords (mockDomainsService [] None) ''example.com.'' [DNSValue testDNS, RRValue testRR] []
     = (([DNSValue testDNS, DNSValue \<lparr>DNS.Record = testRR, DNS.ID = ''12345''\<rparr>], None),
        [EditRecordCall ''example.com'' 1 (recordToGoDo (DNSValue testDNS)),
         CreateRecordCall ''example.com'' (recordToGoDo (RRValue testRR))])
   \<and> idRaw (DNSValue testDNS) \<noteq> [] \<and> idRaw (RRValue testRR) = []
   \<and> list_all2 (routed ''example.com'')
        [EditRecordCall ''example.com'' 1 (recordToGoDo (DNSValue testDNS)),
         CreateRecordCall ''example.com'' (recordToGoDo (RRValue testRR))]
        [DNSValue testDNS, RRValue testRR]
   \<and> snd (SetRecords (mockDomainsService [] None) ''example.com.'' [DNSValue testDNS] [])
       = [EditRecordCall ''example.com'' 1 (recordToGoDo (DNSValue testDNS))]
   \<and> snd (SetRecords (mockDomainsService [] None) ''example.com.'' [RRValue testRR] [])
       = [CreateRecordCall ''example.com'' (recordToGoDo (RRValue testRR))]
   \<and> SetRecords (mockDomainsService [] None) ''example.com.''
        [RRValue testRR, DNSValue \<lparr>DNS.Record = testRR, DNS.ID = ''invalid''\<rparr>, RRValue testRR] []
     = (([DNSValue \<lparr>DNS.Record = testRR, DNS.ID = ''12345''\<rparr>],
         Some (NumError ''Atoi'' ''invalid'' ErrSyntax)),
        [CreateRecordCall ''example.com'' (recordToGoDo (RRValue testRR))])
   \<and> owed (mockDomainsService [] None) ''example.com''
        (DNSValue \<lparr>DNS.Record = testRR, DNS.ID = ''invalid''\<rparr>)
        [CreateRecordCall ''example.com'' (recordToGoDo (RRValue testRR))]
     = ((DNSValue \<lparr>DNS.Record = testRR, DNS.ID = ''invalid''\<rparr>,
         Some (NumError ''Atoi'' ''invalid'' ErrSyntax)),
        [CreateRecordCall ''example.com'' (recordToGoDo (RRValue testRR))])"
proof -
  have z: "unFQDN ''example.com.'' = ''example.com''"
    by (simp add: unFQDN_def)
  have ids: "idRaw (DNSValue testDNS) \<noteq> []" "idRaw (RRValue testRR) = []"
    by (simp_all add: idRaw_def testDNS_def)
  have mixed: "list_all2 (routed ''example.com'')
        [EditRecordCall ''example.com'' 1 (recordToGoDo (DNSValue testDNS)),
         CreateRecordCall ''example.com'' (recordToGoDo (RRValue testRR))]
        [DNSValue testDNS, RRValue testRR]"
    using SetRecords_dispatch [OF SetRecords_mixed_batch] by (simp add: z)
  have singles:
    "snd (SetRecords (mockDomainsService [] None) ''example.com.'' [DNSValue testDNS] [])
       = [EditRecordCall ''example.com'' 1 (recordToGoDo (DNSValue testDNS))]"
    "snd (SetRecords (mockDomainsService [] None) ''example.com.'' [RRValue testRR] [])
       = [CreateRecordCall ''example.com'' (recordToGoDo (RRValue testRR))]"
    using SetRecords_dispatch [OF SetRecords_mixed_batch, of "DNSValue testDNS"]
      SetRecords_dispatch [OF SetRecords_mixed_batch, of "RRValue testRR"]
      updateDNSEntry_trace [of "mockDomainsService [] None" "''example.com''" "DNSValue testDNS" "[]"]
      addDNSEntry_trace [of "mockDomainsService [] None" "''example.com''" "RRValue testRR" "[]"]
      Atoi_1 ids
    by (simp_all add: z idRaw_def testDNS_def)
  have failing: "owed (mockDomainsService [] None) ''example.com''
        (DNSValue \<lparr>DNS.Record = testRR, DNS.ID = ''invalid''\<rparr>)
        [CreateRecordCall ''example.com'' (recordToGoDo (RRValue testRR))]
     = ((DNSValue \<lparr>DNS.Record = testRR, DNS.ID = ''invalid''\<rparr>,
         Some (NumError ''Atoi'' ''invalid'' ErrSyntax)),
        [CreateRecordCall ''example.com'' (recordToGoDo (RRValue testRR))])"
    using SetRecords_dispatch [OF SetRecords_failing_batch]
    by (simp add: z owed_def updateDNSEntry_def idRaw_def Atoi_invalid)
  show ?thesis
    using SetRecords_mixed_batch SetRecords_failing_batch ids mixed singles failing
    by simp
qed

text \<open>
  C9. \<open>unFQDN\<close> removes one trailing dot and no more, and returns a name without a
  trailing dot as it is; in particular \<open>example.com.\<close> and \<open>example.com\<close> both give
  \<open>example.com\<close>. It is a total function with no error result.
\<close>

theorem unFQDN_strips_one_trailing_dot:
  "unFQDN (s @ ''.'') = s
   \<and> ((s = [] \<or> last s \<noteq> CHR ''.'') \<longrightarrow> unFQDN s = s)
   \<and> unFQDN ''example.com.'' = ''example.com''
   \<and> unFQDN ''example.com'' = ''example.com''"
  by (simp add: unFQDN_def)

theorem unFQDN_strips_one_trailing_dot_witness:
  "last ''sub.example.com'' \<noteq> CHR ''.''
   \<and> unFQDN ''sub.example.com'' = ''sub.example.com''
   \<and> unFQDN ''sub.example.com.'' = ''sub.example.com''
   \<and> unFQDN ''sub.example.com..'' = ''sub.example.com.''"
  using unFQDN_strips_one_trailing_dot [of "''sub.example.com''"]
    unFQDN_strips_one_trailing_dot [of "''sub.example.com.''"]
  by simp

section \<open>The translator\<close>

subsection \<open>The exponent and the rounding of the float model\<close>

text \<open>
  \<open>ilog2\<close> brackets a positive rational between two consecutive powers of two, and
  \<open>round_half_even\<close> moves a rational by at most one half: \<open>round64\<close> scales by the
  right power of two and picks a nearest significand.
\<close>

lemma pow2_pos: "0 < pow2 e"
  by (simp add: pow2_def)

lemma pow2_diff: "pow2 (int a - int b) = 2 ^ a / 2 ^ b"
proof (cases "b \<le> a")
  case True
  then have "nat (int a - int b) = a - b"
    by simp
  then show ?thesis
    using True by (simp add: pow2_def power_diff)
next
  case False
  then have "nat (- (int a - int b)) = b - a" "a \<le> b"
    by simp_all
  then show ?thesis
    using False by (simp add: pow2_def power_diff)
qed

lemma ilog2_bracket:
  assumes "0 < q"
  shows "pow2 (ilog2 q) \<le> q \<and> q < pow2 (ilog2 q + 1)"
proof -
  obtain a b where ab: "quotient_of q = (a, b)"
    by (cases "quotient_of q")
  have b: "0 < b"
    using ab by (rule quotient_of_denom_pos)
  have q: "q = of_int a / of_int b"
    using ab by (rule quotient_of_div)
  have a: "0 < a"
    using assms b unfolding q by (simp add: zero_less_divide_iff)
  define A where "A = nat (bitlen a)"
  define B where "B = nat (bitlen b)"
  have A: "bitlen a = int A" and B: "bitlen b = int B"
    using bitlen_nonneg [of a] bitlen_nonneg [of b] by (simp_all add: A_def B_def)
  have A1: "0 < A" and B1: "0 < B"
    using a b bitlen_eq_zero_iff [of a] bitlen_eq_zero_iff [of b] A B by linarith+
  have "2 ^ nat (bitlen a - 1) \<le> a" "a < 2 ^ nat (bitlen a)"
    using bitlen_bounds [OF a] by simp_all
  then have "2 ^ (A - 1) \<le> a" "a < 2 ^ A"
    using A1 by (simp_all add: A nat_diff_distrib')
  then have ra: "(2::rat) ^ (A - 1) \<le> of_int a" "rat_of_int a < 2 ^ A"
    by (metis of_int_le_iff of_int_numeral of_int_power, metis of_int_less_iff of_int_numeral of_int_power)
  have "2 ^ nat (bitlen b - 1) \<le> b" "b < 2 ^ nat (bitlen b)"
    using bitlen_bounds [OF b] by simp_all
  then have "2 ^ (B - 1) \<le> b" "b < 2 ^ B"
    using B1 by (simp_all add: B nat_diff_distrib')
  then have rb: "(2::rat) ^ (B - 1) \<le> of_int b" "rat_of_int b < 2 ^ B"
    by (metis of_int_le_iff of_int_numeral of_int_power, metis of_int_less_iff of_int_numeral of_int_power)
  have rb0: "0 < rat_of_int b" and ra0: "0 < rat_of_int a"
    using a b by simp_all
  have A2: "(2::rat) ^ A = 2 * 2 ^ (A - 1)" and B2: "(2::rat) ^ B = 2 * 2 ^ (B - 1)"
    using A1 B1 by (simp_all add: power_eq_if)
  have upper: "q < pow2 (int A - int B + 1)"
  proof -
    have "q < 2 ^ A / of_int b"
      unfolding q using ra(2) rb0 by (simp add: divide_strict_right_mono)
    also have "\<dots> \<le> 2 ^ A / 2 ^ (B - 1)"
      using rb(1) by (simp add: frac_le)
    also have "\<dots> = pow2 (int (Suc A) - int B)"
      unfolding pow2_diff B2 by simp
    finally show ?thesis
      by (simp add: algebra_simps)
  qed
  have lower: "pow2 (int A - int B - 1) \<le> q"
  proof -
    have "pow2 (int A - int (Suc B)) = 2 ^ (A - 1) / 2 ^ B"
      unfolding pow2_diff A2 by simp
    also have "\<dots> \<le> 2 ^ (A - 1) / of_int b"
      using rb(2) rb0 by (simp add: frac_le)
    also have "\<dots> \<le> q"
      unfolding q using ra(1) rb0 by (simp add: divide_right_mono)
    finally show ?thesis
      by (simp add: algebra_simps)
  qed
  show ?thesis
    using upper lower
    by (simp add: ilog2_def ab A B Let_def not_le)
qed

lemma round_half_even_nearest: "\<bar>of_int (round_half_even q) - q\<bar> \<le> 1 / 2"
proof -
  have "of_int \<lfloor>q\<rfloor> \<le> q" "q < of_int \<lfloor>q\<rfloor> + 1"
    by linarith+
  then show ?thesis
    by (auto simp: round_half_even_def Let_def)
qed

subsection \<open>Whole seconds survive the conversion to a duration and back\<close>

lemma round_half_even_of_int: "round_half_even (of_int z) = z"
  by (simp add: round_half_even_def)

lemma round64_of_int_pos:
  assumes "0 < m" and "m < 2 ^ 53"
  shows "round64 (of_int m) = of_int m"
proof -
  define k where "k = bitlen m - 1"
  have bl: "0 < bitlen m"
    using assms(1) bitlen_eq_zero_iff [of m] bitlen_nonneg [of m] by linarith
  have k0: "0 \<le> k"
    using bl by (simp add: k_def)
  have k52: "k \<le> 52"
    using assms(2) bitlen_le_iff_power [of m 53] by (simp add: k_def)
  have low: "2 ^ nat k \<le> m"
    using bitlen_bounds [OF assms(1)] by (simp add: k_def)
  have "(2::rat) ^ nat k = of_int (2 ^ nat k)"
    by simp
  also have "\<dots> \<le> of_int m"
    using low by (simp only: of_int_le_iff)
  finally have "pow2 k \<le> of_int m"
    using k0 by (simp add: pow2_def)
  moreover have "bitlen 1 = 1"
    by (subst compute_bitlen) simp
  ultimately have il: "ilog2 (of_int m) = k"
    by (simp add: ilog2_def quotient_of_rat_of_int k_def Let_def)
  define j where "j = nat (52 - k)"
  have u: "pow2 (k - 52) = 1 / 2 ^ j"
  proof (cases "k = 52")
    case True
    then show ?thesis by (simp add: pow2_def j_def)
  next
    case False
    then have "\<not> 0 \<le> k - 52" using k52 by simp
    then show ?thesis by (simp add: pow2_def j_def)
  qed
  have scaled: "rat_of_int m / (1 / 2 ^ j) = of_int (m * 2 ^ j)"
    by simp
  have pos: "rat_of_int m \<noteq> 0" "\<not> rat_of_int m < 0" "\<bar>rat_of_int m\<bar> = of_int m"
    using assms(1) by simp_all
  show ?thesis
    unfolding round64_def Let_def pos il u scaled round_half_even_of_int
    using pos(1,2) by simp
qed

lemma round64_of_int:
  assumes "\<bar>n\<bar> < 2 ^ 53"
  shows "round64 (of_int n) = of_int n"
proof -
  consider "n = 0" | "0 < n" | "n < 0"
    by linarith
  then show ?thesis
  proof cases
    case 1
    then show ?thesis by (simp add: round64_def)
  next
    case 2
    then show ?thesis using assms by (intro round64_of_int_pos) simp_all
  next
    case 3
    then have m: "0 < - n" "- n < 2 ^ 53"
      using assms by simp_all
    have neg: "rat_of_int n \<noteq> 0" "rat_of_int n < 0" "\<bar>rat_of_int n\<bar> = of_int (- n)"
      using 3 by simp_all
    have "round64 (of_int n) = - round64 (- of_int n)"
      using neg m(1) unfolding round64_def Let_def
      by simp
    then show ?thesis
      using round64_of_int_pos [OF m] by simp
  qed
qed

lemma sint_Second: "sint Second = 1000000000"
  by (simp add: Second_def)

lemma sint_seconds_to_Duration:
  assumes "- 9223372036 \<le> sint ttl" and "sint ttl \<le> 9223372036"
  shows "sint (ttl * Second) = sint ttl * 1000000000"
proof -
  have "- (2 ^ 63) \<le> sint ttl * 1000000000" "sint ttl * 1000000000 < 2 ^ 63"
    using assms by simp_all
  then have "signed_take_bit 63 (sint ttl * 1000000000) = sint ttl * 1000000000"
    by (rule signed_take_bit_int_eq_self)
  then show ?thesis
    by (simp add: sint_word_mult sint_Second)
qed

lemma sdiv_smod_whole:
  "(s * 1000000000) sdiv 1000000000 = (s::int)" "(s * 1000000000) smod 1000000000 = (0::int)"
  by (simp_all add: signed_divide_int_def signed_modulo_int_def abs_mult sgn_mult mult_sgn_abs)

lemma Seconds_whole:
  assumes "- 9223372036 \<le> sint ttl" and "sint ttl \<le> 9223372036"
  shows "float_to_int (Seconds (ttl * Second)) = ttl"
proof -
  define s where "s = sint ttl"
  have "\<bar>s\<bar> < 2 ^ 53"
    using assms by (simp add: s_def)
  then have whole: "round64 (of_int s) = of_int s"
    by (rule round64_of_int)
  have zero: "round64 0 = 0"
    by (simp add: round64_def)
  have "sint (ttl * Second) = s * 1000000000"
    using sint_seconds_to_Duration [OF assms] by (simp add: s_def)
  then have "Seconds (ttl * Second) = of_int s"
    by (simp add: Seconds_def sint_Second sdiv_smod_whole whole zero)
  then have "float_to_int (Seconds (ttl * Second)) = word_of_int s"
    by (simp add: float_to_int_def)
  then show ?thesis
    by (simp add: s_def)
qed

text \<open>
  C5. Translating a wire record with \<open>godoToRecord\<close> and the result back with
  \<open>recordToGoDo\<close> preserves Name, Type and Data of every wire record, and preserves the
  TTL of every wire record whose TTL, multiplied by \<open>time.Second\<close>, still fits a
  \<open>time.Duration\<close>: at most 9223372036 seconds in absolute value.
\<close>

theorem translator_round_trip:
  "DomainRecordEditRequest.Name (recordToGoDo (DNSValue (godoToRecord entry)))
     = DomainRecord.Name entry
   \<and> DomainRecordEditRequest.Type (recordToGoDo (DNSValue (godoToRecord entry)))
     = DomainRecord.Type entry
   \<and> DomainRecordEditRequest.Data (recordToGoDo (DNSValue (godoToRecord entry)))
     = DomainRecord.Data entry
   \<and> (- 9223372036 \<le> sint (DomainRecord.TTL entry) \<and> sint (DomainRecord.TTL entry) \<le> 9223372036
        \<longrightarrow> DomainRecordEditRequest.TTL (recordToGoDo (DNSValue (godoToRecord entry)))
              = DomainRecord.TTL entry)"
  by (simp add: recordToGoDo_def godoToRecord_def Seconds_whole)

theorem translator_round_trip_witness:
  "- 9223372036 \<le> sint (DomainRecord.TTL mockRecordA)
   \<and> sint (DomainRecord.TTL mockRecordA) \<le> 9223372036
   \<and> recordToGoDo (DNSValue (godoToRecord mockRecordA))
     = \<lparr>DomainRecordEditRequest.Type = ''A'', DomainRecordEditRequest.Name = ''test'',
        DomainRecordEditRequest.Data = ''192.168.1.1'', DomainRecordEditRequest.TTL = 3600\<rparr>"
  using translator_round_trip [of mockRecordA]
  by (simp add: mockRecordA_def)

text \<open>
  Beyond that range the multiplication by \<open>time.Second\<close> wraps around. A wire TTL of
  9223372037 seconds becomes a negative duration and comes back as -9223372036.
\<close>

theorem translator_round_trip_counterexample:
  "DomainRecordEditRequest.TTL
     (recordToGoDo (DNSValue (godoToRecord (mockRecordA\<lparr>DomainRecord.TTL := 9223372037\<rparr>))))
   \<noteq> DomainRecord.TTL (mockRecordA\<lparr>DomainRecord.TTL := 9223372037\<rparr>)
   \<and> DomainRecordEditRequest.TTL
     (recordToGoDo (DNSValue (godoToRecord (mockRecordA\<lparr>DomainRecord.TTL := 9223372037\<rparr>))))
   = - 9223372036"
  by code_simp

subsection \<open>The two variants of the translator\<close>

text \<open>
  C10. The legacy translator (type \<open>dns\<close>) and the current one (type \<open>DNS\<close>) agree on
  every input: the same generic record and the same identifier string from a wire
  record, the same two fields from a generic record and an identifier, and the same edit
  request.
\<close>

theorem legacy_translator_equal:
  "Record_legacy (godoToRecord_legacy entry) = DNS.Record (godoToRecord entry)
   \<and> ID_legacy (godoToRecord_legacy entry) = DNS.ID (godoToRecord entry)
   \<and> Record_legacy (fromRecord_legacy record ident) = DNS.Record (fromRecord record ident)
   \<and> ID_legacy (fromRecord_legacy record ident) = DNS.ID (fromRecord record ident)
   \<and> recordToGoDo_legacy record = recordToGoDo record"
  by (simp add: godoToRecord_legacy_def godoToRecord_def fromRecord_legacy_def fromRecord_def
      recordToGoDo_legacy_def recordToGoDo_def Let_def)

end
